theory Spec2Isabelle
  imports Main "HOL-Library.Sublist" "HOL-Library.Char_ord" "HOL-Library.List_Lexorder"
begin

section \<open>Exceptions\<close>

text \<open>
  Every exception that the modelled functions of \<^verbatim>\<open>server.py\<close> can raise is a value.
  \<open>AccessDenied\<close> is the \<^verbatim>\<open>PermissionError("Access outside data dir is not allowed: ...")\<close>
  raised by \<^verbatim>\<open>_enforce_under\<close>. \<open>ResolveError\<close> is whatever \<^verbatim>\<open>Path.resolve()\<close> raises (a
  symlink loop, an embedded null byte). \<open>ReadError\<close> is whatever \<^verbatim>\<open>Path.read_text\<close> raises
  (the file is absent, is a directory, is refused by the operating system, or is not UTF-8).
  \<open>ParseError\<close> is the \<^verbatim>\<open>yaml.YAMLError\<close> of \<^verbatim>\<open>yaml.safe_load\<close>. The last three are the
  built-in exceptions of the same names.
\<close>

datatype error =
    AccessDenied
  | ResolveError
  | ReadError
  | ParseError
  | ValueError
  | TypeError
  | AttributeError

section \<open>Strings\<close>

text \<open>\<^verbatim>\<open>s.partition(c)\<close> for a one-character separator: the part before the first
  occurrence, whether the separator was found, and the part after it.\<close>

definition partition_str :: "char \<Rightarrow> string \<Rightarrow> string \<times> bool \<times> string" where
  "partition_str c s =
     (let rest = dropWhile (\<lambda>x. x \<noteq> c) s
      in if rest = [] then (s, False, []) else (takeWhile (\<lambda>x. x \<noteq> c) s, True, tl rest))"

text \<open>\<^verbatim>\<open>s.split(c)\<close> for a one-character separator; the result is never empty.\<close>

fun split_on :: "char \<Rightarrow> string \<Rightarrow> string list" where
  "split_on c [] = [[]]"
| "split_on c (x # xs) =
     (if x = c then [] # split_on c xs
      else (x # hd (split_on c xs)) # tl (split_on c xs))"

text \<open>\<^verbatim>\<open>sub in s\<close> on strings.\<close>

fun contains :: "string \<Rightarrow> string \<Rightarrow> bool" where
  "contains sub [] = (sub = [])"
| "contains sub (y # ys) = (prefix sub (y # ys) \<or> contains sub ys)"

text \<open>\<^verbatim>\<open>s.find(c, k)\<close>: the first index from \<open>k\<close> on that holds \<open>c\<close>.\<close>

fun find_from :: "nat \<Rightarrow> char \<Rightarrow> string \<Rightarrow> nat option" where
  "find_from k c [] = None"
| "find_from 0 c (x # xs) = (if x = c then Some 0 else map_option Suc (find_from 0 c xs))"
| "find_from (Suc k) c (x # xs) = map_option Suc (find_from k c xs)"

text \<open>\<^verbatim>\<open>s.rfind(c)\<close>: the last index that holds \<open>c\<close>.\<close>

fun rfind :: "char \<Rightarrow> string \<Rightarrow> nat option" where
  "rfind c [] = None"
| "rfind c (x # xs) =
     (case rfind c xs of Some i \<Rightarrow> Some (Suc i) | None \<Rightarrow> if x = c then Some 0 else None)"

text \<open>The single quote.\<close>

definition squote :: char where
  "squote = CHR 0x27"

text \<open>\<^verbatim>\<open>s.lower()\<close> on ASCII letters.\<close>

definition lower_char :: "char \<Rightarrow> char" where
  "lower_char c =
     (if CHR ''A'' \<le> c \<and> c \<le> CHR ''Z'' then char_of (of_char c + (32::nat)) else c)"

definition lower :: "string \<Rightarrow> string" where
  "lower s = map lower_char s"

section \<open>Pure POSIX paths\<close>

text \<open>
  A \<^verbatim>\<open>PurePosixPath\<close> is its root (\<open>''''\<close>, \<open>''/''\<close> or \<open>''//''\<close>) and the components after the
  root. \<open>parts\<close> is pathlib's \<^verbatim>\<open>_parts\<close>: the root, when there is one, comes first.
\<close>

record pure_path =
  anchor :: string
  tail :: "string list"

definition parts :: "pure_path \<Rightarrow> string list" where
  "parts p = (if anchor p \<noteq> [] then [anchor p] else []) @ tail p"

text \<open>\<^verbatim>\<open>_PosixFlavour.splitroot\<close>: exactly two leading slashes are kept as a root of their own.\<close>

definition splitroot :: "string \<Rightarrow> string \<times> string" where
  "splitroot part =
     (if part \<noteq> [] \<and> hd part = CHR ''/'' then
        (let stripped = dropWhile (\<lambda>c. c = CHR ''/'') part
         in if length part - length stripped = 2 then (''//'', stripped) else (''/'', stripped))
      else ([], part))"

text \<open>\<^verbatim>\<open>parse_parts\<close> on one string: empty components and \<open>.\<close> are dropped, \<open>..\<close> is kept.\<close>

definition parse_path :: "string \<Rightarrow> pure_path" where
  "parse_path s =
     (let (r, rel) = splitroot s
      in \<lparr>anchor = r, tail = filter (\<lambda>x. x \<noteq> [] \<and> x \<noteq> ''.'') (split_on CHR ''/'' rel)\<rparr>)"

text \<open>\<^verbatim>\<open>base / other\<close>: an absolute right operand replaces the left one.\<close>

definition joinpath :: "pure_path \<Rightarrow> string \<Rightarrow> pure_path" where
  "joinpath base other =
     (let p2 = parse_path other
      in if anchor p2 \<noteq> [] then p2 else \<lparr>anchor = anchor base, tail = tail base @ tail p2\<rparr>)"

text \<open>\<^verbatim>\<open>PurePath.relative_to\<close>: the root counts as a component of its own, after the
  (empty) drive.\<close>

definition abs_parts :: "pure_path \<Rightarrow> string list" where
  "abs_parts p = (if anchor p \<noteq> [] then [[], anchor p] else []) @ tail p"

definition relative_to :: "pure_path \<Rightarrow> pure_path \<Rightarrow> error + pure_path" where
  "relative_to p other =
     (let n = length (abs_parts other)
      in if (if n = 0 then anchor p \<noteq> [] else take n (abs_parts p) \<noteq> abs_parts other)
         then Inl ValueError
         else Inr \<lparr>anchor = (if n = 1 then anchor p else []), tail = drop n (abs_parts p)\<rparr>)"

text \<open>\<^verbatim>\<open>_enforce_under\<close>: any exception of \<^verbatim>\<open>relative_to\<close> becomes the PermissionError.\<close>

definition enforce_under :: "pure_path \<Rightarrow> pure_path \<Rightarrow> error + unit" where
  "enforce_under path base =
     (case relative_to path base of Inl _ \<Rightarrow> Inl AccessDenied | Inr _ \<Rightarrow> Inr ())"

text \<open>\<^verbatim>\<open>PurePath.suffix\<close>: the extension of the last component.\<close>

definition suffix_of :: "pure_path \<Rightarrow> string" where
  "suffix_of p =
     (let name = (if tail p = [] then [] else last (tail p))
      in case rfind CHR ''.'' name of
           None \<Rightarrow> []
         | Some i \<Rightarrow> if 0 < i \<and> i < length name - 1 then drop i name else [])"

section \<open>fnmatch\<close>

text \<open>
  \<^verbatim>\<open>fnmatch.translate\<close> (CPython 3.11) turns a pattern into a regular expression made of
  these pieces: \<open>Star\<close> is \<^verbatim>\<open>.*\<close>, \<open>AnyChar\<close> is \<^verbatim>\<open>.\<close>, \<open>Lit c\<close> is the escaped character,
  \<open>CharClass neg rs\<close> is a bracket expression given by its ranges, \<open>NoMatch\<close> is \<^verbatim>\<open>(?!)\<close>.
\<close>

datatype item = Star | AnyChar | Lit char | CharClass bool "(char \<times> char) list" | NoMatch

text \<open>The index in \<open>cs\<close> (the text after \<open>[\<close>) of the \<open>]\<close> that closes the bracket
  expression: a leading \<open>!\<close> and a \<open>]\<close> right after it do not close it.\<close>

definition bracket_end :: "string \<Rightarrow> nat option" where
  "bracket_end cs =
     (let j1 = (if take 1 cs = ''!'' then 1 else 0);
          j2 = (if take 1 (drop j1 cs) = '']'' then j1 + 1 else j1)
      in find_from j2 CHR '']'' cs)"

text \<open>The chunks between the hyphens that make ranges. \<open>k\<close> counts the characters that
  cannot be such a hyphen: the first of the expression (the first two after \<open>!\<close>), and the
  two after a range hyphen. A hyphen at the very end is kept in the last chunk.\<close>

fun split_chunks :: "nat \<Rightarrow> string \<Rightarrow> string \<Rightarrow> string list" where
  "split_chunks k cur [] = [cur]"
| "split_chunks k cur (c # cs) =
     (if c = CHR ''-'' \<and> k = 0 then
        (if cs = [] then [cur @ ''-''] else cur # split_chunks 2 [] cs)
      else split_chunks (k - 1) (cur @ [c]) cs)"

text \<open>Empty ranges are removed from the right: where the last character of a chunk is
  above the first of the next, both go and the chunks are joined.\<close>

fun merge_chunks :: "string list \<Rightarrow> string list" where
  "merge_chunks [] = []"
| "merge_chunks [c] = [c]"
| "merge_chunks (c # cs) =
     (case merge_chunks cs of
        [] \<Rightarrow> [c]
      | d # ds \<Rightarrow> if last c > hd d then (butlast c @ tl d) # ds else c # d # ds)"

text \<open>The ranges of the joined chunks: every character stands for itself, and the last
  character of a chunk with the first of the next make a range.\<close>

fun class_ranges :: "string list \<Rightarrow> (char \<times> char) list" where
  "class_ranges [] = []"
| "class_ranges [c] = map (\<lambda>x. (x, x)) c"
| "class_ranges (c # d # ds) =
     (if c = [] \<or> d = [] then
        map (\<lambda>x. (x, x)) c @ [(CHR ''-'', CHR ''-'')] @ class_ranges (d # ds)
      else map (\<lambda>x. (x, x)) (butlast c) @ [(last c, hd d)] @ class_ranges (tl d # ds))"

definition bracket_item :: "string \<Rightarrow> item" where
  "bracket_item stuff =
     (let chunks = merge_chunks (split_chunks (if take 1 stuff = ''!'' then 2 else 1) [] stuff)
      in if concat chunks = [] then NoMatch
         else if chunks = [''!''] then AnyChar
         else if take 1 (hd chunks) = ''!'' then CharClass True (class_ranges (tl (hd chunks) # tl chunks))
         else CharClass False (class_ranges chunks))"

text \<open>The first loop of \<^verbatim>\<open>translate\<close>. \<open>skip\<close> is the number of characters already consumed
  by a bracket expression. Consecutive stars are one star.\<close>

fun translate :: "nat \<Rightarrow> string \<Rightarrow> item list" where
  "translate skip [] = []"
| "translate (Suc skip) (c # cs) = translate skip cs"
| "translate 0 (c # cs) =
     (if c = CHR ''*'' then
        (case translate 0 cs of Star # r \<Rightarrow> Star # r | r \<Rightarrow> Star # r)
      else if c = CHR ''?'' then AnyChar # translate 0 cs
      else if c = CHR ''['' then
        (case bracket_end cs of
           None \<Rightarrow> Lit CHR ''['' # translate 0 cs
         | Some j \<Rightarrow> bracket_item (take j cs) # translate (Suc j) cs)
      else Lit c # translate 0 cs)"

definition item_ok :: "item \<Rightarrow> char \<Rightarrow> bool" where
  "item_ok it c =
     (case it of
        Star \<Rightarrow> True
      | AnyChar \<Rightarrow> True
      | Lit x \<Rightarrow> c = x
      | CharClass neg rs \<Rightarrow> (list_ex (\<lambda>(lo, hi). lo \<le> c \<and> c \<le> hi) rs) \<noteq> neg
      | NoMatch \<Rightarrow> False)"

text \<open>A full match of the translated pattern: a star takes any run of characters.\<close>

fun items_match :: "item list \<Rightarrow> string \<Rightarrow> bool" where
  "items_match [] s = (s = [])"
| "items_match (Star # p) [] = items_match p []"
| "items_match (Star # p) (c # cs) = (items_match p (c # cs) \<or> items_match (Star # p) cs)"
| "items_match (it # p) [] = False"
| "items_match (it # p) (c # cs) = (item_ok it c \<and> items_match p cs)"

definition fnmatchcase :: "string \<Rightarrow> string \<Rightarrow> bool" where
  "fnmatchcase name pat = items_match (translate 0 pat) name"

section \<open>PurePosixPath.match\<close>

text \<open>
  \<^verbatim>\<open>PurePosixPath(path).match(pat)\<close>: an empty pattern raises ValueError; a pattern with a
  root must have as many parts as the path; a relative pattern is compared with the last
  parts of the path. Each pattern part is matched against one path part by
  \<^verbatim>\<open>fnmatch.fnmatchcase\<close>.
\<close>

definition path_match :: "string \<Rightarrow> string \<Rightarrow> error + bool" where
  "path_match path pat =
     (let pp = parse_path pat; xp = parse_path path
      in if parts pp = [] then Inl ValueError
         else if anchor pp \<noteq> [] \<and> anchor pp \<noteq> anchor xp then Inr False
         else if anchor pp \<noteq> [] then
           (if length (parts pp) \<noteq> length (parts xp) then Inr False
            else Inr (list_all (\<lambda>(part, pt). fnmatchcase part pt)
                        (zip (rev (parts xp)) (rev (tl (parts pp))))))
         else if length (parts pp) > length (parts xp) then Inr False
         else Inr (list_all (\<lambda>(part, pt). fnmatchcase part pt)
                     (zip (rev (parts xp)) (rev (parts pp)))))"

section \<open>Glob patterns with braces\<close>

definition expand_brace_patterns :: "string \<Rightarrow> string list" where
  "expand_brace_patterns pattern =
     (if CHR ''{'' \<notin> set pattern \<or> CHR ''}'' \<notin> set pattern then [pattern]
      else
        (let (pre, _, rest) = partition_str CHR ''{'' pattern;
             (inner, sep, post) = partition_str CHR ''}'' rest
         in if \<not> sep then [pattern]
            else map (\<lambda>opt. pre @ opt @ post) (split_on CHR '','' inner)))"

definition normalize_patterns :: "string \<Rightarrow> string list" where
  "normalize_patterns pattern =
     concat (map (\<lambda>pat. pat # (if prefix ''**/'' pat then [drop 3 pat] else []))
               (expand_brace_patterns pattern))"

text \<open>The loop of \<^verbatim>\<open>_matches\<close>: the first match returns, an exception leaves the loop.\<close>

fun matches_loop :: "string \<Rightarrow> string list \<Rightarrow> error + bool" where
  "matches_loop path [] = Inr False"
| "matches_loop path (pat # pats) =
     (case path_match path pat of
        Inl e \<Rightarrow> Inl e
      | Inr True \<Rightarrow> Inr True
      | Inr False \<Rightarrow> matches_loop path pats)"

definition matches :: "string \<Rightarrow> string \<Rightarrow> error + bool" where
  "matches path pattern = matches_loop path (normalize_patterns pattern)"

section \<open>Parsed YAML documents\<close>

text \<open>
  What \<^verbatim>\<open>yaml.safe_load\<close> returns: \<^verbatim>\<open>None\<close>, a bool, an int, a str, a list or a dict (in
  insertion order, with scalar keys). A float behaves in every operation below as an int of
  the same truth value does and is not represented apart.
\<close>

datatype yaml =
    YNull
  | YBool bool
  | YInt int
  | YStr string
  | YSeq "yaml list"
  | YMap "(yaml \<times> yaml) list"

fun truthy :: "yaml \<Rightarrow> bool" where
  "truthy YNull = False"
| "truthy (YBool b) = b"
| "truthy (YInt n) = (n \<noteq> 0)"
| "truthy (YStr s) = (s \<noteq> [])"
| "truthy (YSeq xs) = (xs \<noteq> [])"
| "truthy (YMap kvs) = (kvs \<noteq> [])"

text \<open>\<^verbatim>\<open>a or b\<close>.\<close>

definition py_or :: "yaml \<Rightarrow> yaml \<Rightarrow> yaml" where
  "py_or a b = (if truthy a then a else b)"

text \<open>\<^verbatim>\<open>d.get(k, default)\<close> on the entries of a dict, and \<^verbatim>\<open>d.get(k)\<close>.\<close>

definition dict_get_default :: "(yaml \<times> yaml) list \<Rightarrow> string \<Rightarrow> yaml \<Rightarrow> yaml" where
  "dict_get_default d k dflt = (case map_of d (YStr k) of None \<Rightarrow> dflt | Some v \<Rightarrow> v)"

definition dict_get :: "(yaml \<times> yaml) list \<Rightarrow> string \<Rightarrow> yaml" where
  "dict_get d k = dict_get_default d k YNull"

text \<open>\<^verbatim>\<open>x.get(k, default)\<close> on any value: only a dict has the method.\<close>

definition py_get :: "yaml \<Rightarrow> string \<Rightarrow> yaml \<Rightarrow> error + yaml" where
  "py_get x k dflt = (case x of YMap d \<Rightarrow> Inr (dict_get_default d k dflt) | _ \<Rightarrow> Inl AttributeError)"

text \<open>\<^verbatim>\<open>for v in x\<close>: a dict gives its keys, a str its characters; a scalar is not iterable.\<close>

definition py_iter :: "yaml \<Rightarrow> error + yaml list" where
  "py_iter x =
     (case x of
        YSeq xs \<Rightarrow> Inr xs
      | YMap d \<Rightarrow> Inr (map fst d)
      | YStr s \<Rightarrow> Inr (map (\<lambda>c. YStr [c]) s)
      | _ \<Rightarrow> Inl TypeError)"

text \<open>\<^verbatim>\<open>k in x\<close> for a str \<open>k\<close>: a key of a dict, an element of a list, a substring of a str.\<close>

definition py_in :: "string \<Rightarrow> yaml \<Rightarrow> error + bool" where
  "py_in k x =
     (case x of
        YMap d \<Rightarrow> Inr (YStr k \<in> set (map fst d))
      | YSeq xs \<Rightarrow> Inr (YStr k \<in> set xs)
      | YStr s \<Rightarrow> Inr (contains k s)
      | _ \<Rightarrow> Inl TypeError)"

text \<open>\<^verbatim>\<open>a + b\<close>.\<close>

definition py_add :: "yaml \<Rightarrow> yaml \<Rightarrow> error + yaml" where
  "py_add a b =
     (case (a, b) of
        (YSeq xs, YSeq ys) \<Rightarrow> Inr (YSeq (xs @ ys))
      | (YStr s, YStr t) \<Rightarrow> Inr (YStr (s @ t))
      | (YInt m, YInt n) \<Rightarrow> Inr (YInt (m + n))
      | (YInt m, YBool c) \<Rightarrow> Inr (YInt (m + (if c then 1 else 0)))
      | (YBool b, YInt n) \<Rightarrow> Inr (YInt ((if b then 1 else 0) + n))
      | (YBool b, YBool c) \<Rightarrow> Inr (YInt ((if b then 1 else 0) + (if c then 1 else 0)))
      | _ \<Rightarrow> Inl TypeError)"

definition CILIUM_KINDS :: "string set" where
  "CILIUM_KINDS = {''CiliumNetworkPolicy'', ''CiliumClusterwideNetworkPolicy''}"

text \<open>\<^verbatim>\<open>kind in CILIUM_KINDS\<close>: membership in a set hashes \<open>kind\<close>, and a list or a dict is
  not hashable.\<close>

definition in_cilium_kinds :: "yaml \<Rightarrow> error + bool" where
  "in_cilium_kinds kind =
     (case kind of
        YSeq _ \<Rightarrow> Inl TypeError
      | YMap _ \<Rightarrow> Inl TypeError
      | YStr s \<Rightarrow> Inr (s \<in> CILIUM_KINDS)
      | _ \<Rightarrow> Inr False)"

section \<open>The environment\<close>

text \<open>
  What the server reads from outside: the resolved data directory, \<^verbatim>\<open>Path.resolve\<close> (which
  follows symbolic links; \<open>None\<close> when it raises), \<^verbatim>\<open>Path.read_text\<close> (\<open>None\<close> when it
  raises), the regular files under the data directory as relative POSIX paths in the order of
  \<^verbatim>\<open>rglob\<close>, and PyYAML's \<^verbatim>\<open>safe_load\<close> (\<open>None\<close> when it raises) and \<^verbatim>\<open>safe_dump\<close> (its first
  argument is \<^verbatim>\<open>sort_keys\<close>).
\<close>

record env =
  data_dir :: pure_path
  realpath :: "pure_path \<Rightarrow> pure_path option"
  file_text :: "pure_path \<Rightarrow> string option"
  listing :: "string list"
  safe_load :: "string \<Rightarrow> yaml option"
  safe_dump :: "bool \<Rightarrow> yaml \<Rightarrow> string"

section \<open>Reading one file\<close>

text \<open>
  The single-file tools return, next to their result, the paths whose content they read, in
  order.
\<close>

text \<open>\<^verbatim>\<open>(DEFAULT_DATA_DIR / path).resolve()\<close>.\<close>

definition resolved :: "env \<Rightarrow> string \<Rightarrow> pure_path option" where
  "resolved e path = realpath e (joinpath (data_dir e) path)"

definition read_text :: "env \<Rightarrow> string \<Rightarrow> pure_path list \<times> (error + string)" where
  "read_text e path =
     (case resolved e path of
        None \<Rightarrow> ([], Inl ResolveError)
      | Some fp \<Rightarrow>
          (case enforce_under fp (data_dir e) of
             Inl err \<Rightarrow> ([], Inl err)
           | Inr _ \<Rightarrow>
               ([fp], case file_text e fp of None \<Rightarrow> Inl ReadError | Some t \<Rightarrow> Inr t)))"

section \<open>Validating one policy\<close>

record report =
  r_path :: string
  r_errors :: "string list"
  r_warnings :: "string list"
  r_kind :: yaml
  r_metadata :: "(string \<times> yaml) list"
  r_summary :: "(string \<times> bool) list"

text \<open>The inner loop of \<^verbatim>\<open>_has_l7_ports\<close>, over the entries of one \<^verbatim>\<open>toPorts\<close>.\<close>

fun l7_in_to_ports :: "yaml list \<Rightarrow> error + bool" where
  "l7_in_to_ports [] = Inr False"
| "l7_in_to_ports (tp # tps) =
     (case py_get tp ''ports'' YNull of
        Inl err \<Rightarrow> Inl err
      | Inr a \<Rightarrow>
          if truthy a then Inr True
          else (case py_get tp ''rules'' YNull of
                  Inl err \<Rightarrow> Inl err
                | Inr b \<Rightarrow> if truthy b then Inr True else l7_in_to_ports tps))"

text \<open>The outer loop of \<^verbatim>\<open>_has_l7_ports\<close>, over the rules: the first populated entry
  returns.\<close>

fun l7_in_rules :: "yaml list \<Rightarrow> error + bool" where
  "l7_in_rules [] = Inr False"
| "l7_in_rules (rule # rules) =
     (case py_get rule ''toPorts'' (YSeq []) of
        Inl err \<Rightarrow> Inl err
      | Inr v \<Rightarrow>
          (case py_iter v of
             Inl err \<Rightarrow> Inl err
           | Inr tps \<Rightarrow>
               (case l7_in_to_ports tps of
                  Inl err \<Rightarrow> Inl err
                | Inr True \<Rightarrow> Inr True
                | Inr False \<Rightarrow> l7_in_rules rules)))"

definition has_l7_ports :: "yaml \<Rightarrow> error + bool" where
  "has_l7_ports rules =
     (case py_iter (py_or rules (YSeq [])) of
        Inl err \<Rightarrow> Inl err
      | Inr rs \<Rightarrow> l7_in_rules rs)"

text \<open>Lines 206 to 233 of \<^verbatim>\<open>validate_cilium_policy\<close>: the posture checks on a non-empty
  \<open>spec\<close>. \<open>dump\<close> is \<^verbatim>\<open>yaml.safe_dump\<close>.\<close>

definition posture_checks :: "(yaml \<Rightarrow> string) \<Rightarrow> report \<Rightarrow> yaml \<Rightarrow> error + report" where
  "posture_checks dump result spec =
     (case spec of
        YMap s \<Rightarrow>
          (let have_ingress = truthy (dict_get s ''ingress'');
               have_egress = truthy (dict_get s ''egress'');
               w_none = (if \<not> have_ingress \<and> \<not> have_egress
                         then [''No ingress/egress rules present (might not enforce anything)'']
                         else [])
           in case (if have_ingress then has_l7_ports (dict_get s ''ingress'') else Inr True) of
                Inl err \<Rightarrow> Inl err
              | Inr l7_in \<Rightarrow>
                  (case (if have_egress then has_l7_ports (dict_get s ''egress'') else Inr True) of
                     Inl err \<Rightarrow> Inl err
                   | Inr l7_eg \<Rightarrow>
                       (let w_in = (if \<not> l7_in then [''Ingress has no L4/L7 ports (coarse allow?)''] else []);
                            w_eg = (if \<not> l7_eg then [''Egress has no L4/L7 ports (coarse allow?)''] else []);
                            w_dns = (if have_egress
                                        \<and> \<not> contains ''53'' (dump (dict_get s ''egress''))
                                        \<and> \<not> contains ''toFQDNs'' (dump (dict_get s ''egress''))
                                     then [''No explicit DNS egress (add kube-dns:53 or toFQDNs)'']
                                     else [])
                        in Inr (result\<lparr>r_summary := [(''has_ingress'', have_ingress), (''has_egress'', have_egress)],
                                       r_warnings := r_warnings result @ w_none @ w_in @ w_eg @ w_dns\<rparr>))))
      | _ \<Rightarrow> Inl AttributeError)"

text \<open>Lines 184 to 204: the structural checks on the loaded document.\<close>

definition validate_data :: "(yaml \<Rightarrow> string) \<Rightarrow> string \<Rightarrow> yaml \<Rightarrow> error + report" where
  "validate_data dump path data =
     (let result = \<lparr>r_path = path, r_errors = [], r_warnings = [], r_kind = YNull,
                    r_metadata = [], r_summary = []\<rparr>
      in case data of
           YMap d \<Rightarrow>
             (let kind = dict_get d ''kind''
              in case in_cilium_kinds kind of
                   Inl err \<Rightarrow> Inl err
                 | Inr False \<Rightarrow>
                     Inr (result\<lparr>r_kind := kind, r_errors := [''Not a Cilium {CNP|CCNP} kind'']\<rparr>)
                 | Inr True \<Rightarrow>
                     (let meta = py_or (dict_get_default d ''metadata'' (YMap [])) (YMap [])
                      in case py_in ''name'' meta of
                           Inl err \<Rightarrow> Inl err
                         | Inr has_name \<Rightarrow>
                             (case meta of
                                YMap m \<Rightarrow>
                                  (let result1 = result
                                         \<lparr>r_kind := kind,
                                          r_errors := (if has_name then [] else [''metadata.name is required'']),
                                          r_metadata := map (\<lambda>k. (k, dict_get m k))
                                                          [''name'', ''namespace'', ''labels'']\<rparr>;
                                       spec = py_or (dict_get d ''spec'') (YMap [])
                                   in if \<not> truthy spec
                                      then Inr (result1\<lparr>r_errors := r_errors result1 @ [''spec is required'']\<rparr>)
                                      else posture_checks dump result1 spec)
                              | _ \<Rightarrow> Inl AttributeError)))
         | _ \<Rightarrow> Inr (result\<lparr>r_errors := [''YAML root must be a mapping'']\<rparr>))"

definition validate_cilium_policy :: "env \<Rightarrow> string \<Rightarrow> pure_path list \<times> (error + report)" where
  "validate_cilium_policy e path =
     (case resolved e path of
        None \<Rightarrow> ([], Inl ResolveError)
      | Some fp \<Rightarrow>
          (case enforce_under fp (data_dir e) of
             Inl err \<Rightarrow> ([], Inl err)
           | Inr _ \<Rightarrow>
               ([fp],
                case file_text e fp of
                  None \<Rightarrow> Inl ReadError
                | Some t \<Rightarrow>
                    (case safe_load e t of
                       None \<Rightarrow> Inl ParseError
                     | Some data \<Rightarrow> validate_data (safe_dump e True) path data))))"

section \<open>The policy template\<close>

text \<open>\<^verbatim>\<open>{"ports": [{"port": str(port), "protocol": proto}]}\<close>\<close>

definition port_entry :: "string \<Rightarrow> string \<Rightarrow> yaml" where
  "port_entry port proto =
     YMap [(YStr ''ports'', YSeq [YMap [(YStr ''port'', YStr port), (YStr ''protocol'', YStr proto)]])]"






section \<open>The posture scan\<close>

record stats =
  total :: int
  cnp :: int
  ccnp :: int
  with_l7 :: int
  dns_ok :: int

record detail =
  d_path :: string
  d_kind :: yaml
  d_l7 :: bool
  d_dns_handled :: bool

text \<open>The loop over the entries of one \<^verbatim>\<open>toPorts\<close>: every entry is looked at.\<close>

fun scan_to_ports :: "yaml list \<Rightarrow> bool \<Rightarrow> error + bool" where
  "scan_to_ports [] l7 = Inr l7"
| "scan_to_ports (tp # tps) l7 =
     (case py_get tp ''ports'' YNull of
        Inl err \<Rightarrow> Inl err
      | Inr a \<Rightarrow>
          if truthy a then scan_to_ports tps True
          else (case py_get tp ''rules'' YNull of
                  Inl err \<Rightarrow> Inl err
                | Inr b \<Rightarrow> scan_to_ports tps (if truthy b then True else l7)))"

text \<open>The loop over the ingress and egress sections of one document.\<close>

fun scan_sections :: "(yaml \<Rightarrow> string) \<Rightarrow> yaml list \<Rightarrow> bool \<times> bool \<Rightarrow> error + bool \<times> bool" where
  "scan_sections dump [] acc = Inr acc"
| "scan_sections dump (section # sections) acc =
     (case py_get section ''toPorts'' (YSeq []) of
        Inl err \<Rightarrow> Inl err
      | Inr v \<Rightarrow>
          (case py_iter (py_or v (YSeq [])) of
             Inl err \<Rightarrow> Inl err
           | Inr tps \<Rightarrow>
               (case scan_to_ports tps (fst acc) of
                  Inl err \<Rightarrow> Inl err
                | Inr l7 \<Rightarrow>
                    (case py_get section ''toFQDNs'' YNull of
                       Inl err \<Rightarrow> Inl err
                     | Inr f \<Rightarrow>
                         (let dns1 = (if truthy f then True else snd acc);
                              txt = dump section;
                              dns2 = (if contains (''port: '' @ [squote] @ ''53'' @ [squote]) txt
                                         \<or> contains ''port: 53'' txt
                                      then True else dns1)
                          in scan_sections dump sections (l7, dns2))))))"

text \<open>Lines 307 to 318: the two signals of one recognised document.\<close>

definition doc_signals :: "(yaml \<Rightarrow> string) \<Rightarrow> (yaml \<times> yaml) list \<Rightarrow> error + bool \<times> bool" where
  "doc_signals dump doc =
     (case py_or (dict_get doc ''spec'') (YMap []) of
        YMap s \<Rightarrow>
          (case py_add (py_or (dict_get s ''ingress'') (YSeq [])) (py_or (dict_get s ''egress'') (YSeq [])) of
             Inl err \<Rightarrow> Inl err
           | Inr both \<Rightarrow>
               (case py_iter both of
                  Inl err \<Rightarrow> Inl err
                | Inr sections \<Rightarrow> scan_sections dump sections (False, False)))
      | _ \<Rightarrow> Inl AttributeError)"

text \<open>\<^verbatim>\<open>yaml.safe_load(p.read_text(encoding="utf-8"))\<close> under \<^verbatim>\<open>try\<close>: \<open>None\<close> when either
  raises.\<close>

definition load_doc :: "env \<Rightarrow> string \<Rightarrow> yaml option" where
  "load_doc e rel =
     (case file_text e (joinpath (data_dir e) rel) of
        None \<Rightarrow> None
      | Some t \<Rightarrow> safe_load e t)"

text \<open>The body of the loop of \<^verbatim>\<open>zero_trust_checklist\<close> for the file \<open>rel\<close>.\<close>

definition scan_file ::
  "env \<Rightarrow> string \<Rightarrow> stats \<times> detail list \<Rightarrow> string \<Rightarrow> error + stats \<times> detail list" where
  "scan_file e path_glob acc rel =
     (case (if path_glob \<noteq> [] then matches rel path_glob else Inr True) of
        Inl err \<Rightarrow> Inl err
      | Inr False \<Rightarrow> Inr acc
      | Inr True \<Rightarrow>
          if lower (suffix_of (joinpath (data_dir e) rel)) \<notin> {''.yaml'', ''.yml''} then Inr acc
          else
            (case load_doc e rel of
               Some (YMap doc) \<Rightarrow>
                 (let kind = dict_get doc ''kind''
                  in case in_cilium_kinds kind of
                       Inl err \<Rightarrow> Inl err
                     | Inr False \<Rightarrow> Inr acc
                     | Inr True \<Rightarrow>
                         (case doc_signals (safe_dump e True) doc of
                            Inl err \<Rightarrow> Inl err
                          | Inr (l7, dns) \<Rightarrow>
                              (let st = fst acc;
                                   st1 = st\<lparr>total := total st + 1\<rparr>;
                                   st2 = (if kind = YStr ''CiliumNetworkPolicy''
                                          then st1\<lparr>cnp := cnp st1 + 1\<rparr>
                                          else st1\<lparr>ccnp := ccnp st1 + 1\<rparr>);
                                   st3 = (if l7 then st2\<lparr>with_l7 := with_l7 st2 + 1\<rparr> else st2);
                                   st4 = (if dns then st3\<lparr>dns_ok := dns_ok st3 + 1\<rparr> else st3)
                               in Inr (st4, snd acc @ [\<lparr>d_path = rel, d_kind = kind, d_l7 = l7, d_dns_handled = dns\<rparr>]))))
             | _ \<Rightarrow> Inr acc))"

fun scan_loop ::
  "env \<Rightarrow> string \<Rightarrow> string list \<Rightarrow> stats \<times> detail list \<Rightarrow> error + stats \<times> detail list" where
  "scan_loop e path_glob [] acc = Inr acc"
| "scan_loop e path_glob (rel # rels) acc =
     (case scan_file e path_glob acc rel of
        Inl err \<Rightarrow> Inl err
      | Inr acc' \<Rightarrow> scan_loop e path_glob rels acc')"

definition zero_trust_checklist :: "env \<Rightarrow> string \<Rightarrow> error + stats \<times> detail list" where
  "zero_trust_checklist e path_glob =
     scan_loop e path_glob (listing e)
       (\<lparr>total = 0, cnp = 0, ccnp = 0, with_l7 = 0, dns_ok = 0\<rparr>, [])"

section \<open>A block-style emitter\<close>

text \<open>
  \<^verbatim>\<open>yaml.safe_dump\<close> is a parameter of the functions above. For closed examples this is
  PyYAML's block-style output (\<^verbatim>\<open>default_flow_style=False\<close>, indentation 2) on the
  documents built from \<^verbatim>\<open>None\<close>, bools, ints, lists, dicts with str keys, and strs of
  printable ASCII characters without spaces which, when they start with a digit, a sign or
  a dot, are decimal numerals. Such a str is written plain unless PyYAML's
  \<^verbatim>\<open>analyze_scalar\<close> finds a block indicator or the plain text would be read back as
  another type; otherwise it is single-quoted.
\<close>

definition newline :: char where
  "newline = CHR 0x0A"

definition implicit_words :: "string list" where
  "implicit_words =
     [''yes'', ''Yes'', ''YES'', ''no'', ''No'', ''NO'', ''true'', ''True'', ''TRUE'',
      ''false'', ''False'', ''FALSE'', ''on'', ''On'', ''ON'', ''off'', ''Off'', ''OFF'',
      ''~'', ''null'', ''Null'', ''NULL'', ''<<'', ''='']"

definition is_digit :: "char \<Rightarrow> bool" where
  "is_digit c = (CHR ''0'' \<le> c \<and> c \<le> CHR ''9'')"

definition decimal_numeral :: "string \<Rightarrow> bool" where
  "decimal_numeral s =
     (let t = (if take 1 s = ''-'' \<or> take 1 s = ''+'' then tl s else s)
      in t = ''0'' \<or>
         (t \<noteq> [] \<and> is_digit (hd t) \<and> hd t \<noteq> CHR ''0''
            \<and> list_all (\<lambda>c. is_digit c \<or> c = CHR ''_'') (tl t)))"

definition leading_indicators :: string where
  "leading_indicators = ''#,[]{}&*!|>%@`'' @ [squote, CHR 0x22]"

definition yaml_plain :: "string \<Rightarrow> bool" where
  "yaml_plain s =
     (s \<noteq> [] \<and> s \<notin> set implicit_words \<and> \<not> decimal_numeral s
        \<and> hd s \<notin> set leading_indicators
        \<and> \<not> (length s = 1 \<and> hd s \<in> set ''?:-'')
        \<and> \<not> prefix ''---'' s \<and> \<not> prefix ''...'' s
        \<and> \<not> (1 < length s \<and> last s = CHR '':''))"

definition scalar_str :: "string \<Rightarrow> string" where
  "scalar_str s =
     (if yaml_plain s then s
      else [squote] @ concat (map (\<lambda>c. if c = squote then [c, c] else [c]) s) @ [squote])"

function digits :: "nat \<Rightarrow> string" where
  "digits n = (if n < 10 then [char_of (48 + n)] else digits (n div 10) @ [char_of (48 + n mod 10)])"
  by pat_completeness auto
termination
  by (relation "measure id") auto

text \<open>A scalar or an empty collection, on one line.\<close>

fun flow_text :: "yaml \<Rightarrow> string" where
  "flow_text YNull = ''null''"
| "flow_text (YBool b) = (if b then ''true'' else ''false'')"
| "flow_text (YInt n) = (if n < 0 then ''-'' @ digits (nat (- n)) else digits (nat n))"
| "flow_text (YStr s) = scalar_str s"
| "flow_text (YSeq xs) = ''[]''"
| "flow_text (YMap kvs) = ''{}''"

fun is_block :: "yaml \<Rightarrow> bool" where
  "is_block (YSeq xs) = (xs \<noteq> [])"
| "is_block (YMap kvs) = (kvs \<noteq> [])"
| "is_block v = False"

fun str_key :: "yaml \<Rightarrow> string option" where
  "str_key (YStr s) = Some s"
| "str_key v = None"

text \<open>\<^verbatim>\<open>sort_keys=True\<close>: the entries of every dict in the order of their str keys.\<close>

definition sort_entries :: "(yaml \<times> yaml) list \<Rightarrow> (yaml \<times> yaml) list" where
  "sort_entries kvs =
     (if list_all (\<lambda>kv. str_key (fst kv) \<noteq> None) kvs
      then sort_key (\<lambda>kv. the (str_key (fst kv))) kvs else kvs)"

fun sort_doc :: "yaml \<Rightarrow> yaml" where
  "sort_doc (YSeq xs) = YSeq (map sort_doc xs)"
| "sort_doc (YMap kvs) = YMap (sort_entries (map (\<lambda>kv. (fst kv, sort_doc (snd kv))) kvs))"
| "sort_doc v = v"

text \<open>The lines of a block collection. A nested dict is indented by two; a list that is
  the value of a key stays at the indentation of the key.\<close>

fun dump_lines :: "yaml \<Rightarrow> string list" where
  "dump_lines (YSeq xs) =
     concat (map (\<lambda>x. if is_block x
                      then (case dump_lines x of
                              [] \<Rightarrow> []
                            | l # ls \<Rightarrow> (''- '' @ l) # map (\<lambda>m. ''  '' @ m) ls)
                      else [''- '' @ flow_text x]) xs)"
| "dump_lines (YMap kvs) =
     concat (map (\<lambda>kv. if is_block (snd kv)
                       then (flow_text (fst kv) @ '':'') #
                            (case snd kv of
                               YSeq _ \<Rightarrow> dump_lines (snd kv)
                             | _ \<Rightarrow> map (\<lambda>m. ''  '' @ m) (dump_lines (snd kv)))
                       else [flow_text (fst kv) @ '': '' @ flow_text (snd kv)]) kvs)"
| "dump_lines v = [flow_text v]"

definition plain_scalar :: "yaml \<Rightarrow> bool" where
  "plain_scalar v = (case v of YStr s \<Rightarrow> yaml_plain s | YSeq _ \<Rightarrow> False | YMap _ \<Rightarrow> False | _ \<Rightarrow> True)"

definition yaml_dump :: "bool \<Rightarrow> yaml \<Rightarrow> string" where
  "yaml_dump sort_keys doc =
     (let d = (if sort_keys then sort_doc doc else doc)
      in if is_block d then concat (map (\<lambda>l. l @ [newline]) (dump_lines d))
         else flow_text d @ [newline] @ (if plain_scalar d then ''...'' @ [newline] else []))"

section \<open>A file system without symbolic links\<close>

text \<open>\<^verbatim>\<open>Path.resolve\<close> where no component is a symbolic link: \<open>..\<close> removes the component
  before it and stays at the root.\<close>

fun collapse :: "string list \<Rightarrow> string list \<Rightarrow> string list" where
  "collapse acc [] = rev acc"
| "collapse acc (x # xs) = (if x = ''..'' then collapse (tl acc) xs else collapse (x # acc) xs)"

definition lexical_resolve :: "pure_path \<Rightarrow> pure_path option" where
  "lexical_resolve p = Some \<lparr>anchor = anchor p, tail = collapse [] (tail p)\<rparr>"

text \<open>An environment made of a table of files under \<^verbatim>\<open>/data\<close>, each with its relative
  path and its parsed document. The text of a file is the rendering of its document, and
  the parser reads back exactly these texts.\<close>

definition table_env :: "(string \<times> yaml) list \<Rightarrow> env" where
  "table_env files =
     \<lparr>data_dir = \<lparr>anchor = ''/'', tail = [''data'']\<rparr>,
      realpath = lexical_resolve,
      file_text = map_of (map (\<lambda>(rel, doc). (joinpath \<lparr>anchor = ''/'', tail = [''data'']\<rparr> rel, yaml_dump True doc)) files),
      listing = map fst files,
      safe_load = map_of (map (\<lambda>(rel, doc). (yaml_dump True doc, doc)) files),
      safe_dump = yaml_dump\<rparr>"

section \<open>The specification's notions\<close>

text \<open>The value under a chain of keys, \<^verbatim>\<open>None\<close> where a key is absent or the value is
  not a dict.\<close>

fun dig :: "yaml \<Rightarrow> string list \<Rightarrow> yaml" where
  "dig v [] = v"
| "dig (YMap d) (k # ks) = dig (dict_get d k) ks"
| "dig v (k # ks) = YNull"

text \<open>Containment as the specification words it: the path equals the root directory or
  is nested under it, component by component.\<close>

definition nested_under :: "pure_path \<Rightarrow> pure_path \<Rightarrow> bool" where
  "nested_under p base = (anchor p = anchor base \<and> prefix (tail base) (tail p))"



text \<open>A file that the scan counts: it passes the glob, has a YAML extension, and loads as
  a dict whose kind is one of the two Cilium kinds.\<close>

definition counted :: "env \<Rightarrow> string \<Rightarrow> string \<Rightarrow> bool" where
  "counted e path_glob rel =
     ((path_glob = [] \<or> matches rel path_glob = Inr True)
      \<and> lower (suffix_of (joinpath (data_dir e) rel)) \<in> {''.yaml'', ''.yml''}
      \<and> (case load_doc e rel of
            Some (YMap doc) \<Rightarrow> in_cilium_kinds (dict_get doc ''kind'') = Inr True
          | _ \<Rightarrow> False))"

text \<open>The rules of a document under \<^verbatim>\<open>spec.ingress\<close> or \<^verbatim>\<open>spec.egress\<close>, and the entries of a
  rule under \<^verbatim>\<open>toPorts\<close>, where these are lists.\<close>

definition rules_of :: "(yaml \<times> yaml) list \<Rightarrow> string \<Rightarrow> yaml list" where
  "rules_of doc k = (case dig (YMap doc) [''spec'', k] of YSeq rs \<Rightarrow> rs | _ \<Rightarrow> [])"

definition to_ports_of :: "yaml \<Rightarrow> yaml list" where
  "to_ports_of rule = (case dig rule [''toPorts''] of YSeq tps \<Rightarrow> tps | _ \<Rightarrow> [])"

definition is_dict :: "yaml \<Rightarrow> bool" where
  "is_dict v = (case v of YMap _ \<Rightarrow> True | _ \<Rightarrow> False)"

definition empty_or_list :: "yaml \<Rightarrow> bool" where
  "empty_or_list v = (\<not> truthy v \<or> (case v of YSeq _ \<Rightarrow> True | _ \<Rightarrow> False))"

text \<open>A document of the expected shape: the spec is absent, empty or a dict; ingress and
  egress are absent, empty or lists of dicts; each \<^verbatim>\<open>toPorts\<close> is absent, empty or a list of
  dicts.\<close>

definition well_shaped :: "(yaml \<times> yaml) list \<Rightarrow> bool" where
  "well_shaped doc =
     ((\<not> truthy (dict_get doc ''spec'') \<or> is_dict (dict_get doc ''spec''))
      \<and> empty_or_list (dig (YMap doc) [''spec'', ''ingress''])
      \<and> empty_or_list (dig (YMap doc) [''spec'', ''egress''])
      \<and> (\<forall>rule\<in>set (rules_of doc ''ingress'' @ rules_of doc ''egress'').
            is_dict rule \<and> empty_or_list (dig rule [''toPorts''])
            \<and> (\<forall>tp\<in>set (to_ports_of rule). is_dict tp)))"

text \<open>The signals that the specification names: a populated \<^verbatim>\<open>toPorts\<close> entry in any rule of
  ingress or egress; a rule with \<^verbatim>\<open>toFQDNs\<close> or whose rendering shows port 53.\<close>

definition l7_signal :: "(yaml \<times> yaml) list \<Rightarrow> bool" where
  "l7_signal doc =
     (\<exists>rule\<in>set (rules_of doc ''ingress'' @ rules_of doc ''egress'').
        \<exists>tp\<in>set (to_ports_of rule). truthy (dig tp [''ports'']) \<or> truthy (dig tp [''rules'']))"

definition dns_signal :: "(yaml \<Rightarrow> string) \<Rightarrow> (yaml \<times> yaml) list \<Rightarrow> bool" where
  "dns_signal dump doc =
     (\<exists>rule\<in>set (rules_of doc ''ingress'' @ rules_of doc ''egress'').
        truthy (dig rule [''toFQDNs''])
        \<or> contains (''port: '' @ [squote] @ ''53'' @ [squote]) (dump rule)
        \<or> contains ''port: 53'' (dump rule))"

definition has_ports_in_ingress :: "(yaml \<times> yaml) list \<Rightarrow> bool" where
  "has_ports_in_ingress doc =
     (\<exists>rule\<in>set (rules_of doc ''ingress''). \<exists>tp\<in>set (to_ports_of rule). truthy (dig tp [''ports'']))"

definition declares_fqdns_in_egress :: "(yaml \<times> yaml) list \<Rightarrow> bool" where
  "declares_fqdns_in_egress doc =
     (\<exists>rule\<in>set (rules_of doc ''egress''). truthy (dig rule [''toFQDNs'']))"

text \<open>A file of the corpus that is a well-shaped CiliumNetworkPolicy selected by the glob.\<close>

definition cnp_file :: "env \<Rightarrow> string \<Rightarrow> string \<Rightarrow> (yaml \<times> yaml) list \<Rightarrow> bool" where
  "cnp_file e path_glob rel doc =
     ((path_glob = [] \<or> matches rel path_glob = Inr True)
      \<and> lower (suffix_of (joinpath (data_dir e) rel)) \<in> {''.yaml'', ''.yml''}
      \<and> load_doc e rel = Some (YMap doc)
      \<and> dict_get doc ''kind'' = YStr ''CiliumNetworkPolicy''
      \<and> well_shaped doc)"

section \<open>Example documents\<close>

text \<open>\<^verbatim>\<open>{kind: CiliumNetworkPolicy, metadata: {name: x}, spec: {ingress: [{}], egress: [{}]}}\<close>\<close>

definition policy_open_rules :: "string \<Rightarrow> yaml" where
  "policy_open_rules x =
     YMap [(YStr ''kind'', YStr ''CiliumNetworkPolicy''),
           (YStr ''metadata'', YMap [(YStr ''name'', YStr x)]),
           (YStr ''spec'', YMap [(YStr ''ingress'', YSeq [YMap []]), (YStr ''egress'', YSeq [YMap []])])]"

text \<open>\<^verbatim>\<open>{kind: CiliumNetworkPolicy, metadata: {}, spec: {}}\<close>\<close>

definition policy_empty :: yaml where
  "policy_empty =
     YMap [(YStr ''kind'', YStr ''CiliumNetworkPolicy''),
           (YStr ''metadata'', YMap []),
           (YStr ''spec'', YMap [])]"

text \<open>A data directory that holds the one file \<^verbatim>\<open>a/b.yaml\<close>.\<close>

definition sample_env :: env where
  "sample_env = table_env [(''a/b.yaml'', policy_empty)]"

text \<open>Two policies that declare \<^verbatim>\<open>toFQDNs\<close> in egress and one with a port in ingress, and a
  data directory that holds the three, one of them in a subdirectory.\<close>

definition fqdn_entries :: "string \<Rightarrow> string \<Rightarrow> (yaml \<times> yaml) list" where
  "fqdn_entries name fqdn =
     [(YStr ''kind'', YStr ''CiliumNetworkPolicy''),
      (YStr ''metadata'', YMap [(YStr ''name'', YStr name)]),
      (YStr ''spec'', YMap [(YStr ''egress'', YSeq
         [YMap [(YStr ''toFQDNs'', YSeq [YMap [(YStr ''matchName'', YStr fqdn)]])]])])]"

definition port_entries :: "string \<Rightarrow> string \<Rightarrow> (yaml \<times> yaml) list" where
  "port_entries name port =
     [(YStr ''kind'', YStr ''CiliumNetworkPolicy''),
      (YStr ''metadata'', YMap [(YStr ''name'', YStr name)]),
      (YStr ''spec'', YMap [(YStr ''ingress'', YSeq
         [YMap [(YStr ''toPorts'', YSeq [port_entry port ''TCP''])]])])]"

definition corpus_env :: env where
  "corpus_env =
     table_env [(''a.yaml'', YMap (fqdn_entries ''a'' ''api.example.com'')),
                (''sub/b.yml'', YMap (fqdn_entries ''b'' ''db.example.com'')),
                (''c.yaml'', YMap (port_entries ''c'' ''8080''))]"

text \<open>A data directory with one policy and a file \<^verbatim>\<open>bad.yaml\<close> whose text, an unclosed
  flow sequence, is not YAML.\<close>

definition broken_env :: env where
  "broken_env =
     (let base = table_env [(''a.yaml'', YMap (fqdn_entries ''a'' ''api.example.com''))]
      in base\<lparr>listing := [''a.yaml'', ''bad.yaml''],
              file_text := (file_text base)(joinpath (data_dir base) ''bad.yaml'' := Some ''kind: ['')\<rparr>)"

section \<open>Properties\<close>

subsection \<open>Containment in the data directory\<close>

lemma take_eq_prefix: "take (length xs) ys = xs \<longleftrightarrow> prefix xs ys"
  by (metis append_eq_conv_conj append_take_drop_id prefix_def)

lemma relative_to_nested:
  assumes "anchor base \<noteq> []" and "anchor fp \<noteq> []"
  shows "relative_to fp base = Inl ValueError \<longleftrightarrow> \<not> nested_under fp base"
    and "(\<exists>r. relative_to fp base = Inr r) \<longleftrightarrow> nested_under fp base"
  using assms
  by (auto simp: relative_to_def abs_parts_def nested_under_def Let_def take_eq_prefix)

lemma enforce_under_nested:
  assumes "anchor base \<noteq> []" and "anchor fp \<noteq> []"
  shows "enforce_under fp base = (if nested_under fp base then Inr () else Inl AccessDenied)"
  using relative_to_nested[OF assms]
  by (auto simp: enforce_under_def split: sum.splits)

text \<open>The validator raises nothing but AttributeError and TypeError.\<close>

lemma l7_in_to_ports_error: "l7_in_to_ports tps = Inl err \<Longrightarrow> err = AttributeError"
  by (induction tps) (auto simp: py_get_def split: sum.splits if_splits yaml.splits)

lemma l7_in_rules_error: "l7_in_rules rs = Inl err \<Longrightarrow> err = AttributeError \<or> err = TypeError"
  by (induction rs)
    (auto simp: py_get_def py_iter_def split: sum.splits if_splits yaml.splits bool.splits
      dest: l7_in_to_ports_error)

lemma has_l7_ports_error: "has_l7_ports v = Inl err \<Longrightarrow> err = AttributeError \<or> err = TypeError"
  by (auto simp: has_l7_ports_def py_iter_def split: sum.splits yaml.splits dest: l7_in_rules_error)

lemma posture_checks_error:
  "posture_checks dump r spec = Inl err \<Longrightarrow> err = AttributeError \<or> err = TypeError"
  by (auto simp: posture_checks_def Let_def split: yaml.splits sum.splits if_splits
      dest: has_l7_ports_error)

lemma validate_data_error:
  "validate_data dump path data = Inl err \<Longrightarrow> err = AttributeError \<or> err = TypeError"
  by (auto simp: validate_data_def Let_def in_cilium_kinds_def py_in_def
      split: yaml.splits sum.splits if_splits bool.splits dest: posture_checks_error)

text \<open>
  Claim C1. Let the data directory be absolute and let \<^verbatim>\<open>resolve()\<close> return absolute paths.
  \<^verbatim>\<open>read_text\<close> and \<^verbatim>\<open>validate_cilium_policy\<close> fail with the PermissionError of \<^verbatim>\<open>_enforce_under\<close>
  exactly when the path, joined with the data directory and resolved, is neither the data
  directory nor nested under it. When it is, the file at the resolved path is read and the
  operation goes on with its content. When access is denied, no file has been read.
\<close>

theorem containment_access_denied_iff:
  assumes "anchor (data_dir e) \<noteq> []"
    and "\<forall>fp. resolved e p = Some fp \<longrightarrow> anchor fp \<noteq> []"
  shows "(snd (read_text e p) = Inl AccessDenied
            \<longleftrightarrow> (\<exists>fp. resolved e p = Some fp \<and> \<not> nested_under fp (data_dir e)))
       \<and> (snd (validate_cilium_policy e p) = Inl AccessDenied
            \<longleftrightarrow> (\<exists>fp. resolved e p = Some fp \<and> \<not> nested_under fp (data_dir e)))
       \<and> (\<forall>fp. resolved e p = Some fp \<and> nested_under fp (data_dir e) \<longrightarrow>
             read_text e p = ([fp], case file_text e fp of None \<Rightarrow> Inl ReadError | Some t \<Rightarrow> Inr t)
           \<and> validate_cilium_policy e p =
               ([fp], case file_text e fp of
                        None \<Rightarrow> Inl ReadError
                      | Some t \<Rightarrow> (case safe_load e t of
                                     None \<Rightarrow> Inl ParseError
                                   | Some data \<Rightarrow> validate_data (safe_dump e True) p data)))
       \<and> (snd (read_text e p) = Inl AccessDenied \<longrightarrow> fst (read_text e p) = [])
       \<and> (snd (validate_cilium_policy e p) = Inl AccessDenied
            \<longrightarrow> fst (validate_cilium_policy e p) = [])"
proof (cases "resolved e p")
  case None
  then show ?thesis by (simp add: read_text_def validate_cilium_policy_def)
next
  case (Some fp)
  with assms have abs: "anchor fp \<noteq> []" by simp
  note eu = enforce_under_nested[OF assms(1) abs]
  show ?thesis
  proof (cases "nested_under fp (data_dir e)")
    case True
    with Some eu show ?thesis
      by (auto simp: read_text_def validate_cilium_policy_def split: option.splits
          dest: validate_data_error)
  next
    case False
    with Some eu show ?thesis
      by (simp add: read_text_def validate_cilium_policy_def)
  qed
qed

text \<open>With the data directory \<^verbatim>\<open>/data\<close>: \<^verbatim>\<open>../etc/passwd\<close> resolves to \<^verbatim>\<open>/etc/passwd\<close> and is
  denied before any read; \<^verbatim>\<open>a/b.yaml\<close> resolves to \<^verbatim>\<open>/data/a/b.yaml\<close>, which is read.\<close>

theorem containment_access_denied_witness:
  "anchor (data_dir sample_env) \<noteq> []
   \<and> resolved sample_env ''../etc/passwd'' = Some \<lparr>anchor = ''/'', tail = [''etc'', ''passwd'']\<rparr>
   \<and> read_text sample_env ''../etc/passwd'' = ([], Inl AccessDenied)
   \<and> resolved sample_env ''a/b.yaml'' = Some \<lparr>anchor = ''/'', tail = [''data'', ''a'', ''b.yaml'']\<rparr>
   \<and> fst (read_text sample_env ''a/b.yaml'') = [\<lparr>anchor = ''/'', tail = [''data'', ''a'', ''b.yaml'']\<rparr>]
   \<and> snd (read_text sample_env ''a/b.yaml'') \<noteq> Inl AccessDenied"
proof -
  have r1: "resolved sample_env ''../etc/passwd'' = Some \<lparr>anchor = ''/'', tail = [''etc'', ''passwd'']\<rparr>"
    by code_simp
  have r2: "resolved sample_env ''a/b.yaml'' = Some \<lparr>anchor = ''/'', tail = [''data'', ''a'', ''b.yaml'']\<rparr>"
    by code_simp
  have d: "data_dir sample_env = \<lparr>anchor = ''/'', tail = [''data'']\<rparr>"
    by (simp add: sample_env_def table_env_def)
  have n1: "\<not> nested_under \<lparr>anchor = ''/'', tail = [''etc'', ''passwd'']\<rparr> (data_dir sample_env)"
    by (simp add: d nested_under_def)
  have n2: "nested_under \<lparr>anchor = ''/'', tail = [''data'', ''a'', ''b.yaml'']\<rparr> (data_dir sample_env)"
    by (simp add: d nested_under_def)
  have a: "anchor (data_dir sample_env) \<noteq> []" by (simp add: d)
  from containment_access_denied_iff[OF a, of "''../etc/passwd''"] r1 n1
  have "snd (read_text sample_env ''../etc/passwd'') = Inl AccessDenied"
    and "fst (read_text sample_env ''../etc/passwd'') = []"
    by auto
  moreover from containment_access_denied_iff[OF a, of "''a/b.yaml''"] r2 n2
  have "fst (read_text sample_env ''a/b.yaml'') = [\<lparr>anchor = ''/'', tail = [''data'', ''a'', ''b.yaml'']\<rparr>]"
    and "snd (read_text sample_env ''a/b.yaml'') \<noteq> Inl AccessDenied"
    by auto
  ultimately show ?thesis using a r1 r2 by (simp add: prod_eq_iff)
qed

subsection \<open>The validator on two documents\<close>

lemma dump_open_rules: "yaml_dump True (YSeq [YMap []]) = ''- {}'' @ [newline]"
  by code_simp

lemma validate_open_rules:
  "validate_data (yaml_dump True) path (policy_open_rules x) =
     Inr \<lparr>r_path = path,
          r_errors = [],
          r_warnings = [''Ingress has no L4/L7 ports (coarse allow?)'',
                        ''Egress has no L4/L7 ports (coarse allow?)'',
                        ''No explicit DNS egress (add kube-dns:53 or toFQDNs)''],
          r_kind = YStr ''CiliumNetworkPolicy'',
          r_metadata = [(''name'', YStr x), (''namespace'', YNull), (''labels'', YNull)],
          r_summary = [(''has_ingress'', True), (''has_egress'', True)]\<rparr>"
  by (simp add: validate_data_def policy_open_rules_def dict_get_def dict_get_default_def
      in_cilium_kinds_def CILIUM_KINDS_def py_or_def py_in_def posture_checks_def
      has_l7_ports_def py_iter_def py_get_def dump_open_rules newline_def)

text \<open>On \<^verbatim>\<open>{kind: CiliumNetworkPolicy, metadata: {name: x}, spec: {ingress: [{}], egress: [{}]}}\<close>
  the number of warnings is not two.\<close>

theorem open_rules_two_warnings_counterexample:
  "map_sum id (\<lambda>r. length (r_warnings r) = 2)
     (validate_data (yaml_dump True) ''web.yaml'' (policy_open_rules ''x'')) = Inr False"
  by (simp add: validate_open_rules)

text \<open>
  Claim C4, amended. Validating
  \<^verbatim>\<open>{kind: CiliumNetworkPolicy, metadata: {name: x}, spec: {ingress: [{}], egress: [{}]}}\<close>
  yields exactly three warnings, in this order: ingress without L4/L7 ports, egress without
  L4/L7 ports, no explicit DNS egress; and no error.
\<close>

theorem open_rules_three_warnings:
  "validate_data (yaml_dump True) path (policy_open_rules x) =
     Inr \<lparr>r_path = path,
          r_errors = [],
          r_warnings = [''Ingress has no L4/L7 ports (coarse allow?)'',
                        ''Egress has no L4/L7 ports (coarse allow?)'',
                        ''No explicit DNS egress (add kube-dns:53 or toFQDNs)''],
          r_kind = YStr ''CiliumNetworkPolicy'',
          r_metadata = [(''name'', YStr x), (''namespace'', YNull), (''labels'', YNull)],
          r_summary = [(''has_ingress'', True), (''has_egress'', True)]\<rparr>"
  by (rule validate_open_rules)

text \<open>
  Claim C5. Validating \<^verbatim>\<open>{kind: CiliumNetworkPolicy, metadata: {}, spec: {}}\<close> yields the two
  errors "metadata.name is required" and "spec is required", in that order, and no warning:
  the missing name does not end the validation, the missing spec does, before any posture
  check (the summary stays empty).
\<close>

theorem empty_policy_two_errors:
  "validate_data dump path policy_empty =
     Inr \<lparr>r_path = path,
          r_errors = [''metadata.name is required'', ''spec is required''],
          r_warnings = [],
          r_kind = YStr ''CiliumNetworkPolicy'',
          r_metadata = [(''name'', YNull), (''namespace'', YNull), (''labels'', YNull)],
          r_summary = []\<rparr>"
  by (simp add: validate_data_def policy_empty_def dict_get_def dict_get_default_def
      in_cilium_kinds_def CILIUM_KINDS_def py_or_def py_in_def)

subsection \<open>The policy template\<close>

lemma split_on_no_sep: "c \<notin> set s \<Longrightarrow> split_on c s = [s]"
  by (induction s) auto





subsection \<open>Glob matching\<close>




lemma split_on_append_sep:
  "c \<notin> set a \<Longrightarrow> split_on c (a @ c # b) = a # split_on c b"
  by (induction a) auto


lemma parse_path_top_level:
  "CHR ''/'' \<notin> set x \<Longrightarrow>
     parse_path x = \<lparr>anchor = [], tail = (if x = [] \<or> x = ''.'' then [] else [x])\<rparr>"
  by (cases x) (auto simp: parse_path_def splitroot_def split_on_no_sep)

lemma matches_loop_append:
  "matches_loop x (ps @ qs) =
     (case matches_loop x ps of Inr False \<Rightarrow> matches_loop x qs | r \<Rightarrow> r)"
  by (induction ps) (auto split: sum.splits bool.splits)


lemma path_match_error_iff:
  "(\<exists>e. path_match x pat = Inl e) \<longleftrightarrow> parts (parse_path pat) = []"
  by (auto simp: path_match_def Let_def)











lemma items_match_star_any: "items_match [Star] s"
  by (induction s) auto

lemma fnmatchcase_star_star: "fnmatchcase s ''**''" and fnmatchcase_star: "fnmatchcase s ''*''"
  by (simp_all add: fnmatchcase_def items_match_star_any)


lemma dropWhile_first:
  "c \<notin> set pre \<Longrightarrow> dropWhile (\<lambda>x. x \<noteq> c) (pre @ c # rest) = c # rest"
  by (induction pre) auto

lemma takeWhile_first:
  "c \<notin> set pre \<Longrightarrow> takeWhile (\<lambda>x. x \<noteq> c) (pre @ c # rest) = pre"
  by (induction pre) auto

lemma partition_str_found:
  "c \<notin> set pre \<Longrightarrow> partition_str c (pre @ c # rest) = (pre, True, rest)"
  by (simp add: partition_str_def dropWhile_first takeWhile_first)












lemma expand_keeps_prefix:
  assumes "prefix ''**/'' P" and "q \<in> set (expand_brace_patterns P)"
  shows "prefix ''**/'' q"
proof (cases "expand_brace_patterns P = [P]")
  case True
  with assms show ?thesis by simp
next
  case False
  then have both: "CHR ''{'' \<in> set P" "CHR ''}'' \<in> set P"
    by (auto simp: expand_brace_patterns_def split: if_splits)
  from assms(1) obtain r where P: "P = ''**/'' @ r" by (auto simp: prefix_def)
  with both(1) have "CHR ''{'' \<in> set r" by auto
  then obtain a b where r: "r = a @ CHR ''{'' # b" and a: "CHR ''{'' \<notin> set a"
    by (meson split_list_first)
  have pa: "partition_str CHR ''{'' P = (''**/'' @ a, True, b)"
    using partition_str_found[of "CHR ''{''" "''**/'' @ a" b] a P r by simp
  from assms(2) False pa both show ?thesis
    by (auto simp: expand_brace_patterns_def Let_def split: prod.splits if_splits)
qed

lemma parse_path_tail_strip_slashes:
  "filter (\<lambda>x. x \<noteq> [] \<and> x \<noteq> ''.'') (split_on CHR ''/'' (dropWhile (\<lambda>c. c = CHR ''/'') r))
   = filter (\<lambda>x. x \<noteq> [] \<and> x \<noteq> ''.'') (split_on CHR ''/'' r)"
  by (induction r) auto

lemma tail_parse_path:
  "tail (parse_path r) = filter (\<lambda>x. x \<noteq> [] \<and> x \<noteq> ''.'') (split_on CHR ''/'' r)"
  by (auto simp: parse_path_def splitroot_def Let_def parse_path_tail_strip_slashes)

lemma parse_path_star_star:
  "parse_path (CHR ''*'' # CHR ''*'' # CHR ''/'' # r) = \<lparr>anchor = [], tail = ''**'' # tail (parse_path r)\<rparr>"
  by (simp add: tail_parse_path) (simp add: parse_path_def splitroot_def)

lemma top_level_loop:
  assumes x: "parse_path x = \<lparr>anchor = [], tail = [x]\<rparr>"
  shows "(\<exists>b. matches_loop x [''**/'' @ r, r] = Inr b)
       \<and> (path_match x r = Inr True \<longrightarrow> matches_loop x [''**/'' @ r, r] = Inr True)"
proof (cases "tail (parse_path r) = []")
  case True
  then have "path_match x (''**/'' @ r) = Inr True"
    using x by (simp add: path_match_def parse_path_star_star parts_def fnmatchcase_star_star Let_def)
  then show ?thesis by auto
next
  case False
  then have 1: "path_match x (''**/'' @ r) = Inr False"
    using x by (cases "tail (parse_path r)") (auto simp: path_match_def parse_path_star_star parts_def Let_def)
  from False have "parts (parse_path r) \<noteq> []" by (simp add: parts_def)
  then obtain b where "path_match x r = Inr b"
    using path_match_error_iff[of x r] by (cases "path_match x r") auto
  with 1 show ?thesis by (cases b) auto
qed

text \<open>
  Claim C9. Let every brace expansion of the pattern begin with \<^verbatim>\<open>**/\<close>, as is the case when
  the pattern itself does, and let the candidate hold no separator. If the candidate
  matches, under \<^verbatim>\<open>PurePosixPath.match\<close>, one of the expansions with its \<^verbatim>\<open>**/\<close> stripped, then
  \<^verbatim>\<open>_matches\<close> is true.
\<close>

theorem top_level_stripped_variant:
  "(prefix ''**/'' P \<longrightarrow> (\<forall>q\<in>set (expand_brace_patterns P). prefix ''**/'' q))
   \<and> ((\<forall>q\<in>set (expand_brace_patterns P). prefix ''**/'' q)
        \<and> pat \<in> set (expand_brace_patterns P)
        \<and> CHR ''/'' \<notin> set x
        \<and> path_match x (drop 3 pat) = Inr True
       \<longrightarrow> matches x P = Inr True)"
proof (intro conjI impI)
  assume "prefix ''**/'' P"
  then show "\<forall>q\<in>set (expand_brace_patterns P). prefix ''**/'' q"
    using expand_keeps_prefix by blast
next
  assume a: "(\<forall>q\<in>set (expand_brace_patterns P). prefix ''**/'' q)
        \<and> pat \<in> set (expand_brace_patterns P)
        \<and> CHR ''/'' \<notin> set x
        \<and> path_match x (drop 3 pat) = Inr True"
  have x: "parse_path x = \<lparr>anchor = [], tail = [x]\<rparr>"
  proof (rule ccontr)
    assume "\<not> ?thesis"
    with a have "parse_path x = \<lparr>anchor = [], tail = []\<rparr>"
      by (auto simp: parse_path_top_level split: if_splits)
    then have "path_match x (drop 3 pat) \<noteq> Inr True"
      by (auto simp: path_match_def Let_def parts_def)
    with a show False by simp
  qed
  have step: "\<forall>q\<in>set qs. prefix ''**/'' q \<Longrightarrow>
      (\<exists>b. matches_loop x (concat (map (\<lambda>q. q # (if prefix ''**/'' q then [drop 3 q] else [])) qs)) = Inr b)
      \<and> ((\<exists>q\<in>set qs. path_match x (drop 3 q) = Inr True) \<longrightarrow>
          matches_loop x (concat (map (\<lambda>q. q # (if prefix ''**/'' q then [drop 3 q] else [])) qs)) = Inr True)"
    for qs
  proof (induction qs)
    case Nil
    then show ?case by auto
  next
    case (Cons q qs)
    then obtain r where q: "q = ''**/'' @ r" by (auto simp: prefix_def)
    have d: "drop 3 q = r" using q by simp
    from top_level_loop[OF x, of r] obtain b where
      b: "matches_loop x [''**/'' @ r, r] = Inr b"
      and t: "path_match x r = Inr True \<longrightarrow> b" by auto
    have "matches_loop x (concat (map (\<lambda>q. q # (if prefix ''**/'' q then [drop 3 q] else [])) (q # qs)))
        = matches_loop x ([''**/'' @ r, r] @ concat (map (\<lambda>q. q # (if prefix ''**/'' q then [drop 3 q] else [])) qs))"
      using q by simp
    also have "\<dots> = (if b then Inr True
                     else matches_loop x (concat (map (\<lambda>q. q # (if prefix ''**/'' q then [drop 3 q] else [])) qs)))"
      unfolding matches_loop_append b by simp
    finally have eq: "matches_loop x (concat (map (\<lambda>q. q # (if prefix ''**/'' q then [drop 3 q] else [])) (q # qs)))
       = (if b then Inr True
          else matches_loop x (concat (map (\<lambda>q. q # (if prefix ''**/'' q then [drop 3 q] else [])) qs)))" .
    from Cons.prems have ih: "(\<exists>b. matches_loop x (concat (map (\<lambda>q. q # (if prefix ''**/'' q then [drop 3 q] else [])) qs)) = Inr b)
      \<and> ((\<exists>q\<in>set qs. path_match x (drop 3 q) = Inr True) \<longrightarrow>
          matches_loop x (concat (map (\<lambda>q. q # (if prefix ''**/'' q then [drop 3 q] else [])) qs)) = Inr True)"
      by (intro Cons.IH) simp
    show ?case
    proof (cases b)
      case True
      with eq show ?thesis by auto
    next
      case False
      with t d have "path_match x (drop 3 q) \<noteq> Inr True" by simp
      with False eq ih show ?thesis by (simp del: concat.simps map_append)
    qed
  qed
  from a have "\<forall>q\<in>set (expand_brace_patterns P). prefix ''**/'' q" by simp
  from step[OF this] a show "matches x P = Inr True"
    unfolding matches_def normalize_patterns_def by blast
qed

text \<open>The top-level file \<^verbatim>\<open>a.yaml\<close> and the pattern \<^verbatim>\<open>**/*.{yml,yaml}\<close>.\<close>

theorem top_level_stripped_variant_witness:
  "prefix ''**/'' ''**/*.{yml,yaml}''
   \<and> expand_brace_patterns ''**/*.{yml,yaml}'' = [''**/*.yml'', ''**/*.yaml'']
   \<and> CHR ''/'' \<notin> set ''a.yaml''
   \<and> path_match ''a.yaml'' ''*.yaml'' = Inr True
   \<and> matches ''a.yaml'' ''**/*.{yml,yaml}'' = Inr True"
proof -
  have 1: "prefix ''**/'' ''**/*.{yml,yaml}''" by simp
  have 2: "expand_brace_patterns ''**/*.{yml,yaml}'' = [''**/*.yml'', ''**/*.yaml'']" by code_simp
  have 3: "CHR ''/'' \<notin> set ''a.yaml''" by simp
  have 4: "path_match ''a.yaml'' (drop 3 ''**/*.yaml'') = Inr True" by code_simp
  note inst = top_level_stripped_variant[of "''**/*.{yml,yaml}''" "''**/*.yaml''" "''a.yaml''"]
  from inst 1 have all: "\<forall>q\<in>set (expand_brace_patterns ''**/*.{yml,yaml}''). prefix ''**/'' q"
    by blast
  from 2 have mem: "''**/*.yaml'' \<in> set (expand_brace_patterns ''**/*.{yml,yaml}'')" by simp
  from inst all mem 3 4 have "matches ''a.yaml'' ''**/*.{yml,yaml}'' = Inr True" by blast
  with 1 2 3 4 show ?thesis by simp
qed

subsection \<open>The posture scan\<close>

lemma scan_file_step:
  assumes "scan_file e g (st, ds) rel = Inr (st', ds')"
    and "total st = int (length ds)"
    and "cnp st = int (length (filter (\<lambda>r. d_kind r = YStr ''CiliumNetworkPolicy'') ds))"
    and "ccnp st = int (length (filter (\<lambda>r. d_kind r \<noteq> YStr ''CiliumNetworkPolicy'') ds))"
    and "with_l7 st = int (length (filter d_l7 ds))"
    and "dns_ok st = int (length (filter d_dns_handled ds))"
  shows "total st' = int (length ds')
       \<and> cnp st' = int (length (filter (\<lambda>r. d_kind r = YStr ''CiliumNetworkPolicy'') ds'))
       \<and> ccnp st' = int (length (filter (\<lambda>r. d_kind r \<noteq> YStr ''CiliumNetworkPolicy'') ds'))
       \<and> with_l7 st' = int (length (filter d_l7 ds'))
       \<and> dns_ok st' = int (length (filter d_dns_handled ds'))
       \<and> map d_path ds' = map d_path ds @ (if counted e g rel then [rel] else [])"
proof (cases "counted e g rel")
  case False
  with assms(1) have "st' = st \<and> ds' = ds"
    unfolding scan_file_def counted_def
    by (auto simp: Let_def split: sum.splits bool.splits if_splits option.splits yaml.splits prod.splits)
  with assms False show ?thesis by simp
next
  case True
  then obtain doc where
    g: "g = [] \<or> matches rel g = Inr True"
    and sfx: "lower (suffix_of (joinpath (data_dir e) rel)) \<in> {''.yaml'', ''.yml''}"
    and ld: "load_doc e rel = Some (YMap doc)"
    and k: "in_cilium_kinds (dict_get doc ''kind'') = Inr True"
    unfolding counted_def by (auto split: option.splits yaml.splits)
  from assms(1) g sfx ld k obtain l7 dns where
    sig: "doc_signals (safe_dump e True) doc = Inr (l7, dns)"
    unfolding scan_file_def by (auto simp: Let_def split: sum.splits if_splits)
  let ?kind = "dict_get doc ''kind''"
  from assms(1) g sfx ld k sig have
    st': "st' = (let st1 = st\<lparr>total := total st + 1\<rparr>;
                   st2 = (if ?kind = YStr ''CiliumNetworkPolicy''
                          then st1\<lparr>cnp := cnp st1 + 1\<rparr> else st1\<lparr>ccnp := ccnp st1 + 1\<rparr>);
                   st3 = (if l7 then st2\<lparr>with_l7 := with_l7 st2 + 1\<rparr> else st2)
               in (if dns then st3\<lparr>dns_ok := dns_ok st3 + 1\<rparr> else st3))"
    and ds': "ds' = ds @ [\<lparr>d_path = rel, d_kind = ?kind, d_l7 = l7, d_dns_handled = dns\<rparr>]"
    unfolding scan_file_def by (auto simp: Let_def split: if_splits)
  from assms(2-6) True show ?thesis unfolding st' ds' by (simp add: Let_def)
qed

lemma scan_loop_invariant:
  assumes "scan_loop e g rels (st, ds) = Inr (st', ds')"
    and "total st = int (length ds)"
    and "cnp st = int (length (filter (\<lambda>r. d_kind r = YStr ''CiliumNetworkPolicy'') ds))"
    and "ccnp st = int (length (filter (\<lambda>r. d_kind r \<noteq> YStr ''CiliumNetworkPolicy'') ds))"
    and "with_l7 st = int (length (filter d_l7 ds))"
    and "dns_ok st = int (length (filter d_dns_handled ds))"
  shows "total st' = int (length ds')
       \<and> cnp st' = int (length (filter (\<lambda>r. d_kind r = YStr ''CiliumNetworkPolicy'') ds'))
       \<and> ccnp st' = int (length (filter (\<lambda>r. d_kind r \<noteq> YStr ''CiliumNetworkPolicy'') ds'))
       \<and> with_l7 st' = int (length (filter d_l7 ds'))
       \<and> dns_ok st' = int (length (filter d_dns_handled ds'))
       \<and> map d_path ds' = map d_path ds @ filter (counted e g) rels"
  using assms
proof (induction rels arbitrary: st ds)
  case Nil
  then show ?case by simp
next
  case (Cons rel rels)
  from Cons.prems(1) obtain st1 ds1 where
    1: "scan_file e g (st, ds) rel = Inr (st1, ds1)"
    and 2: "scan_loop e g rels (st1, ds1) = Inr (st', ds')"
    by (auto split: sum.splits)
  note s = scan_file_step[OF 1 Cons.prems(2-6)]
  from Cons.IH[OF 2] s show ?case by simp
qed

text \<open>
  Claim C10. Whenever the scan returns, for any environment and any glob: total is cnp plus
  ccnp; there is one detail row per counted file, in the order of the listing; with_l7 and
  dns_ok lie between 0 and total, being the numbers of rows with the respective flag.
\<close>

theorem scan_result_invariants:
  assumes "zero_trust_checklist e path_glob = Inr (st, ds)"
  shows "total st = cnp st + ccnp st
       \<and> int (length ds) = total st
       \<and> map d_path ds = filter (counted e path_glob) (listing e)
       \<and> 0 \<le> with_l7 st \<and> with_l7 st \<le> total st
       \<and> 0 \<le> dns_ok st \<and> dns_ok st \<le> total st
       \<and> cnp st = int (length (filter (\<lambda>r. d_kind r = YStr ''CiliumNetworkPolicy'') ds))
       \<and> with_l7 st = int (length (filter d_l7 ds))
       \<and> dns_ok st = int (length (filter d_dns_handled ds))"
proof -
  from assms have "scan_loop e path_glob (listing e)
      (\<lparr>total = 0, cnp = 0, ccnp = 0, with_l7 = 0, dns_ok = 0\<rparr>, []) = Inr (st, ds)"
    by (simp add: zero_trust_checklist_def)
  from scan_loop_invariant[OF this] have inv:
    "total st = int (length ds)"
    "cnp st = int (length (filter (\<lambda>r. d_kind r = YStr ''CiliumNetworkPolicy'') ds))"
    "ccnp st = int (length (filter (\<lambda>r. d_kind r \<noteq> YStr ''CiliumNetworkPolicy'') ds))"
    "with_l7 st = int (length (filter d_l7 ds))"
    "dns_ok st = int (length (filter d_dns_handled ds))"
    "map d_path ds = filter (counted e path_glob) (listing e)"
    by simp_all
  have split: "length ds = length (filter (\<lambda>r. d_kind r = YStr ''CiliumNetworkPolicy'') ds)
                 + length (filter (\<lambda>r. d_kind r \<noteq> YStr ''CiliumNetworkPolicy'') ds)"
    using sum_length_filter_compl[of "\<lambda>r. d_kind r = YStr ''CiliumNetworkPolicy''" ds] by simp
  have le1: "length (filter d_l7 ds) \<le> length ds" and le2: "length (filter d_dns_handled ds) \<le> length ds"
    by simp_all
  from inv split le1 le2 show ?thesis by simp
qed

lemma sub_scan:
  "zero_trust_checklist corpus_env ''sub/*'' =
     Inr (\<lparr>total = 1, cnp = 1, ccnp = 0, with_l7 = 0, dns_ok = 1\<rparr>,
          [\<lparr>d_path = ''sub/b.yml'', d_kind = YStr ''CiliumNetworkPolicy'', d_l7 = False, d_dns_handled = True\<rparr>])"
  by code_simp

text \<open>The scan of the three-file directory with the glob \<^verbatim>\<open>sub/*\<close> counts the one file under
  \<^verbatim>\<open>sub\<close>.\<close>

theorem scan_result_invariants_witness:
  "zero_trust_checklist corpus_env ''sub/*'' =
     Inr (\<lparr>total = 1, cnp = 1, ccnp = 0, with_l7 = 0, dns_ok = 1\<rparr>,
          [\<lparr>d_path = ''sub/b.yml'', d_kind = YStr ''CiliumNetworkPolicy'', d_l7 = False, d_dns_handled = True\<rparr>])
   \<and> filter (counted corpus_env ''sub/*'') (listing corpus_env) = [''sub/b.yml'']"
  using scan_result_invariants[OF sub_scan] sub_scan by simp

lemma scan_loop_append:
  "scan_loop e g (xs @ ys) acc =
     (case scan_loop e g xs acc of Inl err \<Rightarrow> Inl err | Inr acc' \<Rightarrow> scan_loop e g ys acc')"
  by (induction xs arbitrary: acc) (auto split: sum.splits)

lemma scan_file_unparsed:
  assumes "load_doc e rel = None" and "g = [] \<or> (\<exists>b. matches rel g = Inr b)"
  shows "scan_file e g acc rel = Inr acc"
  using assms by (auto simp: scan_file_def split: bool.splits)

text \<open>
  Claim C7. Take a file of the corpus whose text is read and fails to parse, on whose path the
  glob does not raise, and whose resolved path lies in the data directory and holds the same
  text. The scan passes over it: the step leaves the counters and the rows as they are, and
  the scan returns what it returns on the corpus without the file. Validating the file by
  its path returns no report: the ParseError reaches the caller.
\<close>

theorem parse_failure_skipped_or_raised:
  assumes "file_text e (joinpath (data_dir e) rel) = Some t"
    and "safe_load e t = None"
    and "path_glob = [] \<or> (\<exists>b. matches rel path_glob = Inr b)"
    and "anchor (data_dir e) \<noteq> []"
    and "resolved e rel = Some fp"
    and "anchor fp \<noteq> []"
    and "nested_under fp (data_dir e)"
    and "file_text e fp = Some t"
  shows "scan_file e path_glob acc rel = Inr acc
       \<and> (listing e = before @ rel # after \<longrightarrow>
            zero_trust_checklist e path_glob = zero_trust_checklist (e\<lparr>listing := before @ after\<rparr>) path_glob)
       \<and> validate_cilium_policy e rel = ([fp], Inl ParseError)"
proof -
  have ld: "load_doc e rel = None" using assms(1,2) by (simp add: load_doc_def)
  have skip: "scan_file e path_glob acc rel = Inr acc" for acc
    using ld assms(3) by (rule scan_file_unparsed)
  have ld_eq: "load_doc (e\<lparr>listing := l\<rparr>) r = load_doc e r" for l r
    by (simp add: load_doc_def split: option.splits)
  have sel: "data_dir (e\<lparr>listing := l\<rparr>) = data_dir e" "safe_dump (e\<lparr>listing := l\<rparr>) = safe_dump e" for l
    by simp_all
  have same_file: "scan_file (e\<lparr>listing := l\<rparr>) path_glob a r = scan_file e path_glob a r" for l a r
    by (simp only: scan_file_def ld_eq sel)
  have same_loop: "scan_loop (e\<lparr>listing := l\<rparr>) path_glob rs a = scan_loop e path_glob rs a" for l rs a
    by (induction rs arbitrary: a) (simp_all add: same_file split: sum.splits)
  have loop: "scan_loop e path_glob (before @ rel # after) a = scan_loop e path_glob (before @ after) a" for a
    by (simp add: scan_loop_append skip split: sum.splits)
  have v: "validate_cilium_policy e rel = ([fp], Inl ParseError)"
    using assms(2,5,8) enforce_under_nested[OF assms(4,6)] assms(7)
    by (simp add: validate_cilium_policy_def)
  from skip loop same_loop v show ?thesis by (simp add: zero_trust_checklist_def)
qed

text \<open>The directory with \<^verbatim>\<open>a.yaml\<close> and the unparseable \<^verbatim>\<open>bad.yaml\<close>.\<close>

theorem parse_failure_witness:
  "file_text broken_env (joinpath (data_dir broken_env) ''bad.yaml'') = Some ''kind: [''
   \<and> safe_load broken_env ''kind: ['' = None
   \<and> matches ''bad.yaml'' ''**/*.{yml,yaml}'' = Inr True
   \<and> listing broken_env = [''a.yaml'', ''bad.yaml'']
   \<and> zero_trust_checklist broken_env ''**/*.{yml,yaml}''
       = zero_trust_checklist (broken_env\<lparr>listing := [''a.yaml'']\<rparr>) ''**/*.{yml,yaml}''
   \<and> validate_cilium_policy broken_env ''bad.yaml''
       = ([\<lparr>anchor = ''/'', tail = [''data'', ''bad.yaml'']\<rparr>], Inl ParseError)"
proof -
  have 1: "file_text broken_env (joinpath (data_dir broken_env) ''bad.yaml'') = Some ''kind: [''"
    by (simp add: broken_env_def Let_def)
  have 2: "safe_load broken_env ''kind: ['' = None" by code_simp
  have m: "matches ''bad.yaml'' ''**/*.{yml,yaml}'' = Inr True" by code_simp
  then have 3: "''**/*.{yml,yaml}'' = [] \<or> (\<exists>b. matches ''bad.yaml'' ''**/*.{yml,yaml}'' = Inr b)" by blast
  have d: "data_dir broken_env = \<lparr>anchor = ''/'', tail = [''data'']\<rparr>"
    by (simp add: broken_env_def table_env_def Let_def)
  have 4: "anchor (data_dir broken_env) \<noteq> []" by (simp add: d)
  have 5: "resolved broken_env ''bad.yaml'' = Some \<lparr>anchor = ''/'', tail = [''data'', ''bad.yaml'']\<rparr>"
    by code_simp
  have 6: "anchor \<lparr>anchor = ''/'', tail = [''data'', ''bad.yaml'']\<rparr> \<noteq> []" by simp
  have 7: "nested_under \<lparr>anchor = ''/'', tail = [''data'', ''bad.yaml'']\<rparr> (data_dir broken_env)"
    by (simp add: d nested_under_def)
  have j: "joinpath (data_dir broken_env) ''bad.yaml'' = \<lparr>anchor = ''/'', tail = [''data'', ''bad.yaml'']\<rparr>"
    unfolding d by code_simp
  have 8: "file_text broken_env \<lparr>anchor = ''/'', tail = [''data'', ''bad.yaml'']\<rparr> = Some ''kind: [''"
    using 1 j by simp
  have l: "listing broken_env = [] @ ''a.yaml'' # [] @ ''bad.yaml'' # []"
    by (simp add: broken_env_def Let_def)
  from parse_failure_skipped_or_raised[OF 1 2 3 4 5 6 7 8, of _ "[''a.yaml'']" "[]"] l 1 2 m
  show ?thesis by simp
qed

lemma py_get_dict: "is_dict v \<Longrightarrow> py_get v k YNull = Inr (dig v [k])"
  by (cases v) (auto simp: is_dict_def py_get_def dict_get_def)

lemma scan_to_ports_dicts:
  "\<forall>tp\<in>set tps. is_dict tp \<Longrightarrow>
     scan_to_ports tps l7 =
       Inr (l7 \<or> (\<exists>tp\<in>set tps. truthy (dig tp [''ports'']) \<or> truthy (dig tp [''rules''])))"
  by (induction tps arbitrary: l7) (auto simp: py_get_dict)

lemma to_ports_iter:
  assumes "is_dict rule" and "empty_or_list (dig rule [''toPorts''])"
  shows "\<exists>v. py_get rule ''toPorts'' (YSeq []) = Inr v
            \<and> py_iter (py_or v (YSeq [])) = Inr (to_ports_of rule)"
proof -
  from assms(1) obtain m where r: "rule = YMap m" by (cases rule) (auto simp: is_dict_def)
  show ?thesis
  proof (cases "map_of m (YStr ''toPorts'')")
    case None
    with r show ?thesis
      by (simp add: py_get_def dict_get_default_def py_or_def py_iter_def to_ports_of_def dict_get_def)
  next
    case (Some v)
    with r assms(2) show ?thesis
      by (cases v)
        (auto simp: py_get_def dict_get_default_def py_or_def py_iter_def to_ports_of_def
          dict_get_def empty_or_list_def)
  qed
qed

lemma scan_sections_shaped:
  assumes "\<forall>rule\<in>set rules. is_dict rule \<and> empty_or_list (dig rule [''toPorts''])
              \<and> (\<forall>tp\<in>set (to_ports_of rule). is_dict tp)"
  shows "scan_sections dump rules (l7, dns) =
     Inr (l7 \<or> (\<exists>rule\<in>set rules. \<exists>tp\<in>set (to_ports_of rule).
                  truthy (dig tp [''ports'']) \<or> truthy (dig tp [''rules''])),
          dns \<or> (\<exists>rule\<in>set rules. truthy (dig rule [''toFQDNs''])
                  \<or> contains (''port: '' @ [squote] @ ''53'' @ [squote]) (dump rule)
                  \<or> contains ''port: 53'' (dump rule)))"
  using assms
proof (induction rules arbitrary: l7 dns)
  case Nil
  then show ?case by simp
next
  case (Cons rule rules)
  then have d: "is_dict rule" and el: "empty_or_list (dig rule [''toPorts''])"
    and tps: "\<forall>tp\<in>set (to_ports_of rule). is_dict tp" by auto
  from to_ports_iter[OF d el] obtain v where
    v: "py_get rule ''toPorts'' (YSeq []) = Inr v" "py_iter (py_or v (YSeq [])) = Inr (to_ports_of rule)"
    by blast
  note tp = scan_to_ports_dicts[OF tps, of l7]
  note f = py_get_dict[OF d, of "''toFQDNs''"]
  have ih: "\<And>a b. scan_sections dump rules (a, b) =
     Inr (a \<or> (\<exists>rule\<in>set rules. \<exists>tp\<in>set (to_ports_of rule).
                  truthy (dig tp [''ports'']) \<or> truthy (dig tp [''rules''])),
          b \<or> (\<exists>rule\<in>set rules. truthy (dig rule [''toFQDNs''])
                  \<or> contains (''port: '' @ [squote] @ ''53'' @ [squote]) (dump rule)
                  \<or> contains ''port: 53'' (dump rule)))"
    using Cons by simp
  show ?case
    unfolding scan_sections.simps v sum.case tp f fst_conv snd_conv Let_def ih
    by (auto simp: squote_def)
qed

lemma doc_signals_well_shaped:
  assumes "well_shaped doc"
  shows "doc_signals dump doc = Inr (l7_signal doc, dns_signal dump doc)"
proof -
  let ?spec = "py_or (dict_get doc ''spec'') (YMap [])"
  from assms have "\<exists>s. ?spec = YMap s"
    by (cases "dict_get doc ''spec''") (auto simp: well_shaped_def py_or_def is_dict_def)
  then obtain s where s: "?spec = YMap s" by blast
  have dg: "dig (YMap doc) [''spec'', k] = dict_get s k" for k
    using s by (cases "dict_get doc ''spec''") (auto simp: py_or_def dict_get_def dict_get_default_def split: if_splits)
  have lst: "py_or (dict_get s k) (YSeq []) = YSeq (rules_of doc k)"
    if "empty_or_list (dig (YMap doc) [''spec'', k])" for k
    using that unfolding dg rules_of_def
    by (cases "dict_get s k") (auto simp: py_or_def empty_or_list_def)
  from assms have i: "py_or (dict_get s ''ingress'') (YSeq []) = YSeq (rules_of doc ''ingress'')"
    and e: "py_or (dict_get s ''egress'') (YSeq []) = YSeq (rules_of doc ''egress'')"
    by (auto simp: well_shaped_def intro: lst)
  from assms have sh: "\<forall>rule\<in>set (rules_of doc ''ingress'' @ rules_of doc ''egress'').
      is_dict rule \<and> empty_or_list (dig rule [''toPorts'']) \<and> (\<forall>tp\<in>set (to_ports_of rule). is_dict tp)"
    by (simp add: well_shaped_def)
  show ?thesis
    unfolding doc_signals_def s yaml.case i e
    by (simp add: py_add_def py_iter_def scan_sections_shaped[OF sh] l7_signal_def dns_signal_def squote_def)
qed

lemma scan_file_cnp:
  assumes "cnp_file e g rel doc"
  shows "scan_file e g (\<lparr>total = t, cnp = c, ccnp = cc, with_l7 = w, dns_ok = k\<rparr>, ds) rel =
     Inr (\<lparr>total = t + 1, cnp = c + 1, ccnp = cc,
           with_l7 = w + (if l7_signal doc then 1 else 0),
           dns_ok = k + (if dns_signal (safe_dump e True) doc then 1 else 0)\<rparr>,
          ds @ [\<lparr>d_path = rel, d_kind = YStr ''CiliumNetworkPolicy'', d_l7 = l7_signal doc,
                 d_dns_handled = dns_signal (safe_dump e True) doc\<rparr>])"
  using assms doc_signals_well_shaped[of doc "safe_dump e True"]
  by (auto simp: cnp_file_def scan_file_def in_cilium_kinds_def CILIUM_KINDS_def Let_def)

lemma has_ports_l7: "has_ports_in_ingress doc \<Longrightarrow> l7_signal doc"
  by (auto simp: has_ports_in_ingress_def l7_signal_def)

lemma declares_dns: "declares_fqdns_in_egress doc \<Longrightarrow> dns_signal dump doc"
  by (auto simp: declares_fqdns_in_egress_def dns_signal_def)

text \<open>
  Claim C6. Let the corpus be three files, each a well-shaped CiliumNetworkPolicy selected by
  the glob; let two of the documents declare \<^verbatim>\<open>toFQDNs\<close> in an egress rule and one have a
  populated \<^verbatim>\<open>toPorts.ports\<close> in an ingress rule, and let no document show an L7 signal (in
  ingress or egress) or a DNS signal of another kind. Then the scan returns total 3, cnp 3,
  ccnp 0, with_l7 1 and dns_ok 2, with one row per file. On every well-shaped document the
  L7 flag of the scan is the signal taken over the rules of ingress and egress together.
\<close>

theorem scan_three_policies:
  assumes "listing e = [f1, f2, f3]"
    and "cnp_file e path_glob f1 d1" and "cnp_file e path_glob f2 d2" and "cnp_file e path_glob f3 d3"
    and "length (filter declares_fqdns_in_egress [d1, d2, d3]) = 2"
    and "length (filter has_ports_in_ingress [d1, d2, d3]) = 1"
    and "\<forall>d\<in>set [d1, d2, d3].
           (l7_signal d \<longrightarrow> has_ports_in_ingress d)
           \<and> (dns_signal (safe_dump e True) d \<longrightarrow> declares_fqdns_in_egress d)"
  shows "zero_trust_checklist e path_glob =
     Inr (\<lparr>total = 3, cnp = 3, ccnp = 0, with_l7 = 1, dns_ok = 2\<rparr>,
          map (\<lambda>(f, d). \<lparr>d_path = f, d_kind = YStr ''CiliumNetworkPolicy'',
                          d_l7 = has_ports_in_ingress d, d_dns_handled = declares_fqdns_in_egress d\<rparr>)
            [(f1, d1), (f2, d2), (f3, d3)])
       \<and> (\<forall>doc. well_shaped doc \<longrightarrow>
             doc_signals (safe_dump e True) doc
               = Inr (l7_signal doc, dns_signal (safe_dump e True) doc))"
proof -
  have l7: "l7_signal d = has_ports_in_ingress d" if "d \<in> set [d1, d2, d3]" for d
    using assms(7) that has_ports_l7[of d] by blast
  have dns: "dns_signal (safe_dump e True) d = declares_fqdns_in_egress d" if "d \<in> set [d1, d2, d3]" for d
    using assms(7) that declares_dns[of d] by blast
  have w: "(if has_ports_in_ingress d1 then 1 else 0) + (if has_ports_in_ingress d2 then 1 else 0)
            + (if has_ports_in_ingress d3 then 1 else 0) = (1::int)"
    using assms(6) by (auto split: if_splits)
  have k: "(if declares_fqdns_in_egress d1 then 1 else 0) + (if declares_fqdns_in_egress d2 then 1 else 0)
            + (if declares_fqdns_in_egress d3 then 1 else 0) = (2::int)"
    using assms(5) by (auto split: if_splits)
  have "zero_trust_checklist e path_glob =
     Inr (\<lparr>total = 3, cnp = 3, ccnp = 0, with_l7 = 1, dns_ok = 2\<rparr>,
          map (\<lambda>(f, d). \<lparr>d_path = f, d_kind = YStr ''CiliumNetworkPolicy'',
                          d_l7 = has_ports_in_ingress d, d_dns_handled = declares_fqdns_in_egress d\<rparr>)
            [(f1, d1), (f2, d2), (f3, d3)])"
    unfolding zero_trust_checklist_def assms(1) scan_loop.simps
      scan_file_cnp[OF assms(2)] scan_file_cnp[OF assms(3)] scan_file_cnp[OF assms(4)] sum.case
    using w k by (simp add: l7 dns add.assoc)
  then show ?thesis using doc_signals_well_shaped by blast
qed

text \<open>The three-file directory under the default glob.\<close>

theorem scan_three_policies_witness:
  "zero_trust_checklist corpus_env ''**/*.{yml,yaml}'' =
     Inr (\<lparr>total = 3, cnp = 3, ccnp = 0, with_l7 = 1, dns_ok = 2\<rparr>,
          [\<lparr>d_path = ''a.yaml'', d_kind = YStr ''CiliumNetworkPolicy'', d_l7 = False, d_dns_handled = True\<rparr>,
           \<lparr>d_path = ''sub/b.yml'', d_kind = YStr ''CiliumNetworkPolicy'', d_l7 = False, d_dns_handled = True\<rparr>,
           \<lparr>d_path = ''c.yaml'', d_kind = YStr ''CiliumNetworkPolicy'', d_l7 = True, d_dns_handled = False\<rparr>])"
proof -
  let ?d1 = "fqdn_entries ''a'' ''api.example.com''"
  let ?d2 = "fqdn_entries ''b'' ''db.example.com''"
  let ?d3 = "port_entries ''c'' ''8080''"
  have l: "listing corpus_env = [''a.yaml'', ''sub/b.yml'', ''c.yaml'']"
    by (simp add: corpus_env_def table_env_def)
  have c1: "cnp_file corpus_env ''**/*.{yml,yaml}'' ''a.yaml'' ?d1" by code_simp
  have c2: "cnp_file corpus_env ''**/*.{yml,yaml}'' ''sub/b.yml'' ?d2" by code_simp
  have c3: "cnp_file corpus_env ''**/*.{yml,yaml}'' ''c.yaml'' ?d3" by code_simp
  have f: "declares_fqdns_in_egress ?d1" "declares_fqdns_in_egress ?d2" "\<not> declares_fqdns_in_egress ?d3"
    by code_simp+
  have h: "\<not> has_ports_in_ingress ?d1" "\<not> has_ports_in_ingress ?d2" "has_ports_in_ingress ?d3"
    by code_simp+
  have n: "\<not> l7_signal ?d1" "\<not> l7_signal ?d2" "\<not> dns_signal (safe_dump corpus_env True) ?d3"
    by code_simp+
  have 5: "length (filter declares_fqdns_in_egress [?d1, ?d2, ?d3]) = 2" using f by simp
  have 6: "length (filter has_ports_in_ingress [?d1, ?d2, ?d3]) = 1" using h by simp
  have 7: "\<forall>d\<in>set [?d1, ?d2, ?d3].
           (l7_signal d \<longrightarrow> has_ports_in_ingress d)
           \<and> (dns_signal (safe_dump corpus_env True) d \<longrightarrow> declares_fqdns_in_egress d)"
    using f h n by simp
  from scan_three_policies[OF l c1 c2 c3 5 6 7] f h show ?thesis by simp
qed

end
